theory Spec2Isabelle
  imports Main "HOL-Library.Product_Lexorder"
begin

section \<open>Python values\<close>

text \<open>
  The program is \<^verbatim>\<open>sfz.py\<close>: it decodes resident identity numbers. Its functions are
  embedded one by one, under their own names.

  A Python \<^verbatim>\<open>str\<close> is a \<^typ>\<open>string\<close>. The identity number typed by the user is read
  as ASCII text, one \<^typ>\<open>char\<close> per character, and the character tests below
  (\<^verbatim>\<open>strip\<close>, \<^verbatim>\<open>upper\<close>, \<^verbatim>\<open>isdigit\<close>, \<^verbatim>\<open>int\<close>) are Python's on ASCII; what Python does
  with characters beyond ASCII (other digits, other blanks, case mappings that change
  the length) is outside the model, and theorems about arbitrary input say so with the
  hypothesis \<open>ascii_str\<close>. The Chinese texts of the program (labels, messages, region
  names) are held as their UTF-8 bytes: they are only compared, concatenated, joined
  with a blank and split at \<^verbatim>\<open>/\<close>, and UTF-8 never uses an ASCII byte inside a longer
  character, so these operations give the same result on the bytes.

  An exception that leaves a function is a value \<open>Inl e\<close> of the result.
\<close>

datatype py_error = IndexError | ValueError

definition ascii_str :: "string \<Rightarrow> bool" where
  "ascii_str s = list_all (\<lambda>c. (of_char c :: nat) < 128) s"

text \<open>\<^verbatim>\<open>str.isspace\<close> on ASCII: tab to carriage return, the four separators 28 to 31, blank.\<close>

definition is_space :: "char \<Rightarrow> bool" where
  "is_space c = (let n = (of_char c :: nat) in (9 \<le> n \<and> n \<le> 13) \<or> (28 \<le> n \<and> n \<le> 32))"

definition strip :: "string \<Rightarrow> string" where
  "strip s = rev (dropWhile is_space (rev (dropWhile is_space s)))"

definition upper_char :: "char \<Rightarrow> char" where
  "upper_char c = (let n = (of_char c :: nat) in if 97 \<le> n \<and> n \<le> 122 then char_of (n - 32) else c)"

definition upper :: "string \<Rightarrow> string" where
  "upper s = map upper_char s"

definition is_digit_char :: "char \<Rightarrow> bool" where
  "is_digit_char c = (let n = (of_char c :: nat) in 48 \<le> n \<and> n \<le> 57)"

text \<open>\<^verbatim>\<open>str.isdigit\<close>: false on the empty string.\<close>

definition isdigit :: "string \<Rightarrow> bool" where
  "isdigit s = (s \<noteq> [] \<and> list_all is_digit_char s)"

text \<open>\<^verbatim>\<open>int(c)\<close> for a string of one character \<open>c\<close>.\<close>

definition int_char :: "char \<Rightarrow> py_error + int" where
  "int_char c = (if is_digit_char c then Inr (int (of_char c) - 48) else Inl ValueError)"

text \<open>\<^verbatim>\<open>sep.join(xs)\<close> and \<^verbatim>\<open>s.split(sep)\<close> for a separator of one character.\<close>

fun join :: "string \<Rightarrow> string list \<Rightarrow> string" where
  "join sep [] = []"
| "join sep [x] = x"
| "join sep (x # y # ys) = x @ sep @ join sep (y # ys)"

fun split :: "char \<Rightarrow> string \<Rightarrow> string list" where
  "split sep [] = [[]]"
| "split sep (c # cs) =
     (if c = sep then [] # split sep cs
      else (case split sep cs of
              x # xs \<Rightarrow> (c # x) # xs
            | [] \<Rightarrow> [[c]]))"

text \<open>Decimal text of a natural number, \<^verbatim>\<open>{n:02d}\<close> (padding with zeros), and \<^verbatim>\<open>int\<close> of decimal text.\<close>

definition digit_char :: "nat \<Rightarrow> char" where
  "digit_char n = char_of (48 + n)"

fun str_nat :: "nat \<Rightarrow> string" where
  "str_nat n = (if n < 10 then [digit_char n] else str_nat (n div 10) @ [digit_char (n mod 10)])"

declare str_nat.simps [simp del]

definition zero_pad :: "nat \<Rightarrow> nat \<Rightarrow> string" where
  "zero_pad w n = (let s = str_nat n in replicate (w - length s) (CHR ''0'') @ s)"

definition int_str :: "string \<Rightarrow> nat" where
  "int_str s = foldl (\<lambda>a c. 10 * a + (of_char c - 48)) 0 s"

section \<open>The texts of the program\<close>

text \<open>\<^verbatim>\<open>U+672A U+77E5 U+7701 U+4EFD\<close>, "unknown province".\<close>

definition unknown_province :: string where
  "unknown_province = [CHR 0xE6, CHR 0x9C, CHR 0xAA, CHR 0xE7, CHR 0x9F, CHR 0xA5,
     CHR 0xE7, CHR 0x9C, CHR 0x81, CHR 0xE4, CHR 0xBB, CHR 0xBD]"

text \<open>\<^verbatim>\<open>U+672A U+77E5 U+5730 U+533A\<close>, "unknown region".\<close>

definition unknown_region :: string where
  "unknown_region = [CHR 0xE6, CHR 0x9C, CHR 0xAA, CHR 0xE7, CHR 0x9F, CHR 0xA5,
     CHR 0xE5, CHR 0x9C, CHR 0xB0, CHR 0xE5, CHR 0x8C, CHR 0xBA]"

text \<open>\<^verbatim>\<open>U+672A U+77E5\<close>, "unknown": the address a result starts with.\<close>

definition unknown_address :: string where
  "unknown_address = [CHR 0xE6, CHR 0x9C, CHR 0xAA, CHR 0xE7, CHR 0x9F, CHR 0xA5]"

text \<open>The error messages, in the order of the source: a 17-character number must be
  all digits; the length is not right; not a 15-digit number; not the 18-character
  format; the check code does not match (it should be ...); not a birth date.\<close>

definition err_17_digits :: string where
  "err_17_digits = [CHR 0xE9, CHR 0x94, CHR 0x99, CHR 0xE8, CHR 0xAF, CHR 0xAF, CHR 0xEF,
     CHR 0xBC, CHR 0x9A, CHR 0x31, CHR 0x37, CHR 0x20, CHR 0xE4, CHR 0xBD, CHR 0x8D, CHR 0xE8,
     CHR 0xBA, CHR 0xAB, CHR 0xE4, CHR 0xBB, CHR 0xBD, CHR 0xE8, CHR 0xAF, CHR 0x81, CHR 0xE5,
     CHR 0xBF, CHR 0x85, CHR 0xE9, CHR 0xA1, CHR 0xBB, CHR 0xE5, CHR 0x85, CHR 0xA8, CHR 0xE4,
     CHR 0xB8, CHR 0xBA, CHR 0xE6, CHR 0x95, CHR 0xB0, CHR 0xE5, CHR 0xAD, CHR 0x97]"

definition err_length :: string where
  "err_length = [CHR 0xE9, CHR 0x94, CHR 0x99, CHR 0xE8, CHR 0xAF, CHR 0xAF, CHR 0xEF,
     CHR 0xBC, CHR 0x9A, CHR 0xE8, CHR 0xBA, CHR 0xAB, CHR 0xE4, CHR 0xBB, CHR 0xBD, CHR 0xE8,
     CHR 0xAF, CHR 0x81, CHR 0xE5, CHR 0x8F, CHR 0xB7, CHR 0xE7, CHR 0xA0, CHR 0x81, CHR 0xE9,
     CHR 0x95, CHR 0xBF, CHR 0xE5, CHR 0xBA, CHR 0xA6, CHR 0xE4, CHR 0xB8, CHR 0x8D, CHR 0xE6,
     CHR 0xAD, CHR 0xA3, CHR 0xE7, CHR 0xA1, CHR 0xAE]"

definition err_15 :: string where
  "err_15 = [CHR 0xE9, CHR 0x94, CHR 0x99, CHR 0xE8, CHR 0xAF, CHR 0xAF, CHR 0xEF,
     CHR 0xBC, CHR 0x9A, CHR 0xE6, CHR 0x97, CHR 0xA0, CHR 0xE6, CHR 0x95, CHR 0x88, CHR 0xE7,
     CHR 0x9A, CHR 0x84, CHR 0x20, CHR 0x31, CHR 0x35, CHR 0x20, CHR 0xE4, CHR 0xBD, CHR 0x8D,
     CHR 0xE8, CHR 0xBA, CHR 0xAB, CHR 0xE4, CHR 0xBB, CHR 0xBD, CHR 0xE8, CHR 0xAF, CHR 0x81,
     CHR 0xE5, CHR 0x8F, CHR 0xB7, CHR 0xE7, CHR 0xA0, CHR 0x81]"

definition err_18_format :: string where
  "err_18_format = [CHR 0xE9, CHR 0x94, CHR 0x99, CHR 0xE8, CHR 0xAF, CHR 0xAF, CHR 0xEF,
     CHR 0xBC, CHR 0x9A, CHR 0xE6, CHR 0x97, CHR 0xA0, CHR 0xE6, CHR 0x95, CHR 0x88, CHR 0xE7,
     CHR 0x9A, CHR 0x84, CHR 0x20, CHR 0x31, CHR 0x38, CHR 0x20, CHR 0xE4, CHR 0xBD, CHR 0x8D,
     CHR 0xE8, CHR 0xBA, CHR 0xAB, CHR 0xE4, CHR 0xBB, CHR 0xBD, CHR 0xE8, CHR 0xAF, CHR 0x81,
     CHR 0xE6, CHR 0xA0, CHR 0xBC, CHR 0xE5, CHR 0xBC, CHR 0x8F]"

text \<open>The f-string of the mismatch message: its text, the expected check character,
  and a closing bracket \<^verbatim>\<open>U+FF09\<close>.\<close>

definition err_mismatch :: "char \<Rightarrow> string" where
  "err_mismatch expected_check = [CHR 0xE9, CHR 0x94, CHR 0x99, CHR 0xE8, CHR 0xAF, CHR 0xAF,
     CHR 0xEF, CHR 0xBC, CHR 0x9A, CHR 0xE6, CHR 0xA0, CHR 0xA1, CHR 0xE9, CHR 0xAA, CHR 0x8C,
     CHR 0xE7, CHR 0xA0, CHR 0x81, CHR 0xE4, CHR 0xB8, CHR 0x8D, CHR 0xE5, CHR 0x8C, CHR 0xB9,
     CHR 0xE9, CHR 0x85, CHR 0x8D, CHR 0xEF, CHR 0xBC, CHR 0x88, CHR 0xE5, CHR 0xBA, CHR 0x94,
     CHR 0xE4, CHR 0xB8, CHR 0xBA] @ [expected_check] @ [CHR 0xEF, CHR 0xBC, CHR 0x89]"

definition err_birth_date :: string where
  "err_birth_date = [CHR 0xE9, CHR 0x94, CHR 0x99, CHR 0xE8, CHR 0xAF, CHR 0xAF, CHR 0xEF,
     CHR 0xBC, CHR 0x9A, CHR 0xE6, CHR 0x97, CHR 0xA0, CHR 0xE6, CHR 0x95, CHR 0x88, CHR 0xE7,
     CHR 0x9A, CHR 0x84, CHR 0xE5, CHR 0x87, CHR 0xBA, CHR 0xE7, CHR 0x94, CHR 0x9F, CHR 0xE6,
     CHR 0x97, CHR 0xA5, CHR 0xE6, CHR 0x9C, CHR 0x9F]"

text \<open>\<^verbatim>\<open>U+7537\<close>, male, and \<^verbatim>\<open>U+5973\<close>, female.\<close>

definition male :: string where
  "male = [CHR 0xE7, CHR 0x94, CHR 0xB7]"

definition female :: string where
  "female = [CHR 0xE5, CHR 0xA5, CHR 0xB3]"

text \<open>Spring, summer, autumn, winter.\<close>

definition spring :: string where
  "spring = [CHR 0xE6, CHR 0x98, CHR 0xA5, CHR 0xE5, CHR 0xAD, CHR 0xA3]"

definition summer :: string where
  "summer = [CHR 0xE5, CHR 0xA4, CHR 0x8F, CHR 0xE5, CHR 0xAD, CHR 0xA3]"

definition autumn :: string where
  "autumn = [CHR 0xE7, CHR 0xA7, CHR 0x8B, CHR 0xE5, CHR 0xAD, CHR 0xA3]"

definition winter :: string where
  "winter = [CHR 0xE5, CHR 0x86, CHR 0xAC, CHR 0xE5, CHR 0xAD, CHR 0xA3]"

text \<open>The twelve signs, from Aquarius to Capricorn; each ends in \<^verbatim>\<open>U+5EA7\<close>.\<close>

definition aquarius :: string where
  "aquarius = [CHR 0xE6, CHR 0xB0, CHR 0xB4, CHR 0xE7, CHR 0x93, CHR 0xB6, CHR 0xE5, CHR 0xBA, CHR 0xA7]"

definition pisces :: string where
  "pisces = [CHR 0xE5, CHR 0x8F, CHR 0x8C, CHR 0xE9, CHR 0xB1, CHR 0xBC, CHR 0xE5, CHR 0xBA, CHR 0xA7]"

definition aries :: string where
  "aries = [CHR 0xE7, CHR 0x99, CHR 0xBD, CHR 0xE7, CHR 0xBE, CHR 0x8A, CHR 0xE5, CHR 0xBA, CHR 0xA7]"

definition taurus :: string where
  "taurus = [CHR 0xE9, CHR 0x87, CHR 0x91, CHR 0xE7, CHR 0x89, CHR 0x9B, CHR 0xE5, CHR 0xBA, CHR 0xA7]"

definition gemini :: string where
  "gemini = [CHR 0xE5, CHR 0x8F, CHR 0x8C, CHR 0xE5, CHR 0xAD, CHR 0x90, CHR 0xE5, CHR 0xBA, CHR 0xA7]"

definition cancer :: string where
  "cancer = [CHR 0xE5, CHR 0xB7, CHR 0xA8, CHR 0xE8, CHR 0x9F, CHR 0xB9, CHR 0xE5, CHR 0xBA, CHR 0xA7]"

definition leo :: string where
  "leo = [CHR 0xE7, CHR 0x8B, CHR 0xAE, CHR 0xE5, CHR 0xAD, CHR 0x90, CHR 0xE5, CHR 0xBA, CHR 0xA7]"

definition virgo :: string where
  "virgo = [CHR 0xE5, CHR 0xA4, CHR 0x84, CHR 0xE5, CHR 0xA5, CHR 0xB3, CHR 0xE5, CHR 0xBA, CHR 0xA7]"

definition libra :: string where
  "libra = [CHR 0xE5, CHR 0xA4, CHR 0xA9, CHR 0xE7, CHR 0xA7, CHR 0xA4, CHR 0xE5, CHR 0xBA, CHR 0xA7]"

definition scorpio :: string where
  "scorpio = [CHR 0xE5, CHR 0xA4, CHR 0xA9, CHR 0xE8, CHR 0x9D, CHR 0x8E, CHR 0xE5, CHR 0xBA, CHR 0xA7]"

definition sagittarius :: string where
  "sagittarius = [CHR 0xE5, CHR 0xB0, CHR 0x84, CHR 0xE6, CHR 0x89, CHR 0x8B, CHR 0xE5, CHR 0xBA, CHR 0xA7]"

definition capricorn :: string where
  "capricorn = [CHR 0xE6, CHR 0x91, CHR 0xA9, CHR 0xE7, CHR 0xBE, CHR 0xAF, CHR 0xE5, CHR 0xBA, CHR 0xA7]"

text \<open>The twelve animals: rat, ox, tiger, rabbit, dragon, snake, horse, goat, monkey,
  rooster, dog, pig.\<close>

definition zodiacs :: "string list" where
  "zodiacs = [[CHR 0xE9, CHR 0xBC, CHR 0xA0], [CHR 0xE7, CHR 0x89, CHR 0x9B],
     [CHR 0xE8, CHR 0x99, CHR 0x8E], [CHR 0xE5, CHR 0x85, CHR 0x94],
     [CHR 0xE9, CHR 0xBE, CHR 0x99], [CHR 0xE8, CHR 0x9B, CHR 0x87],
     [CHR 0xE9, CHR 0xA9, CHR 0xAC], [CHR 0xE7, CHR 0xBE, CHR 0x8A],
     [CHR 0xE7, CHR 0x8C, CHR 0xB4], [CHR 0xE9, CHR 0xB8, CHR 0xA1],
     [CHR 0xE7, CHR 0x8B, CHR 0x97], [CHR 0xE7, CHR 0x8C, CHR 0xAA]]"

section \<open>Region lookup\<close>

text \<open>
  \<^verbatim>\<open>get_region_detail(code, region_codes)\<close>. The directory is a map; \<^verbatim>\<open>dict.get\<close> gives
  \<open>None\<close> for a missing key, and \<^verbatim>\<open>if province:\<close> is false for \<open>None\<close> and for the
  empty string. \<^verbatim>\<open>code[:k]\<close> is \<open>take k code\<close>; \<^verbatim>\<open>xs[-1]\<close> of a split is its last
  element (a split is never empty).

  \<open>region_details\<close> is the value of \<^verbatim>\<open>details\<close> when the last line of the function is
  reached, and \<open>None\<close> when the function has returned before, at the missing province.
\<close>

definition truthy :: "string option \<Rightarrow> bool" where
  "truthy v = (case v of None \<Rightarrow> False | Some s \<Rightarrow> s \<noteq> [])"

definition region_details :: "string \<Rightarrow> (string \<rightharpoonup> string) \<Rightarrow> string list option" where
  "region_details code region_codes =
     (let details = [];
          province_code = take 2 code @ ''0000'';
          province = region_codes province_code
      in if truthy province
         then
           (let details = details @ [the province];
                city_code = take 4 code @ ''00'';
                details =
                  (if city_code \<noteq> province_code
                   then (let city = region_codes city_code
                         in if truthy city
                            then details @ [last (split (CHR ''/'') (the city))]
                            else details)
                   else details);
                district = region_codes code;
                details =
                  (if truthy district
                   then details @ [last (split (CHR ''/'') (the district))]
                   else details)
            in Some details)
         else None)"

definition get_region_detail :: "string \<Rightarrow> (string \<rightharpoonup> string) \<Rightarrow> string list" where
  "get_region_detail code region_codes =
     (case region_details code region_codes of
        None \<Rightarrow> [unknown_province]
      | Some details \<Rightarrow> if details \<noteq> [] then details else [unknown_region])"

section \<open>The check character\<close>

definition coefficients :: "int list" where
  "coefficients = [7, 9, 10, 5, 8, 4, 2, 1, 6, 3, 7, 9, 10, 5, 8, 4, 2]"

definition check_codes :: string where
  "check_codes = ''10X98765432''"

text \<open>
  The generator \<^verbatim>\<open>int(id_17[i]) * coefficients[i] for i in range(17)\<close> under \<^verbatim>\<open>sum\<close>:
  the terms are computed in the order of \<open>i\<close>, and the first one that cannot be
  computed raises (\<^verbatim>\<open>IndexError\<close> past the end of the string, \<^verbatim>\<open>ValueError\<close> at a
  character that is not a digit).
\<close>

fun sum_terms :: "string \<Rightarrow> nat list \<Rightarrow> py_error + int" where
  "sum_terms id_17 [] = Inr 0"
| "sum_terms id_17 (i # rest) =
     (if length id_17 \<le> i then Inl IndexError
      else case int_char (id_17 ! i) of
             Inl e \<Rightarrow> Inl e
           | Inr d \<Rightarrow>
               (case sum_terms id_17 rest of
                  Inl e \<Rightarrow> Inl e
                | Inr t \<Rightarrow> Inr (d * coefficients ! i + t)))"

definition compute_check_code :: "string \<Rightarrow> py_error + char" where
  "compute_check_code id_17 =
     (case sum_terms id_17 [0..<17] of
        Inl e \<Rightarrow> Inl e
      | Inr tot \<Rightarrow> Inr (check_codes ! nat (tot mod 11)))"

text \<open>\<^verbatim>\<open>upgrade_15_to_18\<close>: \<open>Inr None\<close> is the returned \<^verbatim>\<open>None\<close>.\<close>

definition upgrade_15_to_18 :: "string \<Rightarrow> py_error + string option" where
  "upgrade_15_to_18 id_15 =
     (if length id_15 = 15 \<and> isdigit id_15
      then (let new_id = take 6 id_15 @ ''19'' @ drop 6 id_15
            in case compute_check_code new_id of
                 Inl e \<Rightarrow> Inl e
               | Inr c \<Rightarrow> Inr (Some (new_id @ [c])))
      else Inr None)"

section \<open>Dates\<close>

text \<open>
  A \<^verbatim>\<open>datetime.date\<close>: Python builds one only with \<open>1 \<le> year \<le> 9999\<close>, a month from 1 to
  12 and a day of that month, and raises \<^verbatim>\<open>ValueError\<close> otherwise (\<open>make_date\<close>).
\<close>

record date =
  year :: nat
  month :: nat
  day :: nat

definition is_leap :: "nat \<Rightarrow> bool" where
  "is_leap y = (y mod 4 = 0 \<and> (y mod 100 \<noteq> 0 \<or> y mod 400 = 0))"

definition days_in_month :: "nat \<Rightarrow> nat \<Rightarrow> nat" where
  "days_in_month y m =
     (if m = 2 then (if is_leap y then 29 else 28)
      else if m = 4 \<or> m = 6 \<or> m = 9 \<or> m = 11 then 30 else 31)"

definition valid_date :: "date \<Rightarrow> bool" where
  "valid_date d = (1 \<le> year d \<and> year d \<le> 9999 \<and> 1 \<le> month d \<and> month d \<le> 12 \<and>
     1 \<le> day d \<and> day d \<le> days_in_month (year d) (month d))"

definition make_date :: "nat \<Rightarrow> nat \<Rightarrow> nat \<Rightarrow> date option" where
  "make_date y m d =
     (let r = \<lparr>year = y, month = m, day = d\<rparr> in if valid_date r then Some r else None)"

text \<open>
  \<^verbatim>\<open>datetime.strptime(s, "%Y%m%d").date()\<close>, with \<open>None\<close> for its \<^verbatim>\<open>ValueError\<close>. The
  library turns the format into the regular expression
  \<^verbatim>\<open>(\d\d\d\d)(1[0-2]|0[1-9]|[1-9])(3[0-1]|[1-2]\d|0[1-9]|[1-9]| [1-9])\<close>,
  matches it at the start of the text, and raises when nothing matches, when text is
  left after the match, or when the three numbers are not a date. Each \<open>match\<close>
  function lists the ways its group can match, in the order the alternatives are tried,
  with the text that is left; the first way through all three groups is the match.
\<close>

definition num2 :: "char \<Rightarrow> char \<Rightarrow> nat" where
  "num2 a b = int_str [a, b]"

definition match_Y :: "string \<Rightarrow> (nat \<times> string) list" where
  "match_Y s =
     (case s of
        a # b # c # d # rest \<Rightarrow>
          if list_all is_digit_char [a, b, c, d] then [(int_str [a, b, c, d], rest)] else []
      | _ \<Rightarrow> [])"

definition match_m :: "string \<Rightarrow> (nat \<times> string) list" where
  "match_m s =
     (case s of
        a # b # rest \<Rightarrow>
          (if a = CHR ''1'' \<and> b \<in> set ''012'' then [(num2 a b, rest)] else []) @
          (if a = CHR ''0'' \<and> b \<in> set ''123456789'' then [(num2 a b, rest)] else [])
      | _ \<Rightarrow> []) @
     (case s of
        a # rest \<Rightarrow> if a \<in> set ''123456789'' then [(int_str [a], rest)] else []
      | _ \<Rightarrow> [])"

definition match_d :: "string \<Rightarrow> (nat \<times> string) list" where
  "match_d s =
     (case s of
        a # b # rest \<Rightarrow>
          (if a = CHR ''3'' \<and> b \<in> set ''01'' then [(num2 a b, rest)] else []) @
          (if a \<in> set ''12'' \<and> is_digit_char b then [(num2 a b, rest)] else []) @
          (if a = CHR ''0'' \<and> b \<in> set ''123456789'' then [(num2 a b, rest)] else [])
      | _ \<Rightarrow> []) @
     (case s of
        a # rest \<Rightarrow> if a \<in> set ''123456789'' then [(int_str [a], rest)] else []
      | _ \<Rightarrow> []) @
     (case s of
        a # b # rest \<Rightarrow>
          if a = CHR '' '' \<and> b \<in> set ''123456789'' then [(int_str [b], rest)] else []
      | _ \<Rightarrow> [])"

definition strptime :: "string \<Rightarrow> date option" where
  "strptime s =
     (case [(y, m, d, r3). (y, r1) \<leftarrow> match_Y s, (m, r2) \<leftarrow> match_m r1, (d, r3) \<leftarrow> match_d r2] of
        [] \<Rightarrow> None
      | (y, m, d, r3) # _ \<Rightarrow> if r3 \<noteq> [] then None else make_date y m d)"

text \<open>
  \<^verbatim>\<open>d.strftime("%Y-%m-%d")\<close>. The text is produced by the C library: the month and the day
  are written on two digits, and the year as the library writes it, which with CPython
  3.11 on glibc is without padding, so that a year below 1000 has fewer than four
  digits (\<^verbatim>\<open>999-01-01\<close>). Libraries that pad the year to four digits differ from this
  for those years only.
\<close>

definition strftime :: "date \<Rightarrow> string" where
  "strftime d = str_nat (year d) @ ''-'' @ zero_pad 2 (month d) @ ''-'' @ zero_pad 2 (day d)"

section \<open>Sign, animal, season\<close>

definition zodiac_signs :: "(nat \<times> string) list" where
  "zodiac_signs =
     [(120, aquarius), (219, pisces), (321, aries), (420, taurus),
      (521, gemini), (622, cancer), (723, leo), (823, virgo),
      (923, libra), (1024, scorpio), (1123, sagittarius), (1222, capricorn)]"

text \<open>
  The loop of \<^verbatim>\<open>get_zodiac_sign\<close> over \<^verbatim>\<open>enumerate(zodiac_signs)\<close>: \<open>index\<close> counts the
  entries passed, the last argument holds those still to come; leaving the loop gives
  the last entry's sign.
\<close>

fun zodiac_loop :: "(nat \<times> string) list \<Rightarrow> nat \<Rightarrow> nat \<Rightarrow> (nat \<times> string) list \<Rightarrow> string" where
  "zodiac_loop tbl birth_num index [] = snd (last tbl)"
| "zodiac_loop tbl birth_num index ((cutoff, sign) # rest) =
     (if birth_num < cutoff
      then (if index > 0 then snd (tbl ! (index - 1)) else snd (last tbl))
      else zodiac_loop tbl birth_num (index + 1) rest)"

definition get_zodiac_sign :: "date \<Rightarrow> string" where
  "get_zodiac_sign birth_date =
     (let birth_num = int_str (str_nat (month birth_date) @ zero_pad 2 (day birth_date))
      in zodiac_loop zodiac_signs birth_num 0 zodiac_signs)"

definition get_chinese_zodiac :: "int \<Rightarrow> string" where
  "get_chinese_zodiac y = (let base_year = 1900; index = (y - base_year) mod 12 in zodiacs ! nat index)"

definition get_birth_season :: "date \<Rightarrow> string" where
  "get_birth_season birth_date =
     (let m = month birth_date
      in if 3 \<le> m \<and> m \<le> 5 then spring
         else if 6 \<le> m \<and> m \<le> 8 then summer
         else if 9 \<le> m \<and> m \<le> 11 then autumn
         else winter)"

section \<open>The parser\<close>

text \<open>
  The result dictionary, with its ten keys in the order of the source: address, birth
  date, age, sex, check code, validity, error message, sign, animal, season of birth.
\<close>

record id_info =
  address :: string
  birth_text :: string
  age :: int
  gender :: string
  check_code :: string
  valid :: bool
  error_msg :: string
  zodiac_sign :: string
  chinese_zodiac :: string
  birth_season :: string

definition initial_info :: id_info where
  "initial_info = \<lparr>address = unknown_address, birth_text = [], age = 0, gender = [],
     check_code = [], valid = False, error_msg = [], zodiac_sign = [],
     chinese_zodiac = [], birth_season = []\<rparr>"

text \<open>
  The age of lines 191 to 193: the comparison of the two pairs is Python's order on
  tuples, the lexicographic one, and the truth value is subtracted as 1 or 0.
\<close>

definition age_on :: "date \<Rightarrow> date \<Rightarrow> int" where
  "age_on current_date birth_date =
     int (year current_date) - int (year birth_date) -
       (if (month current_date, day current_date) < (month birth_date, day birth_date)
        then 1 else 0)"

text \<open>
  Lines 183 to 207 of \<^verbatim>\<open>parse_id_info\<close>, reached once the check character has been
  verified: the address is stored first, then the birth date is parsed, and a date
  that does not parse returns the result as it stands with the error message.
\<close>

definition fill_info :: "date \<Rightarrow> string \<Rightarrow> (string \<rightharpoonup> string) \<Rightarrow> id_info \<Rightarrow> py_error + id_info" where
  "fill_info current_date id_num region_codes info0 =
     (let region_code = take 6 id_num;
          region_details = get_region_detail region_code region_codes;
          info = info0\<lparr>address := join '' '' region_details\<rparr>
      in case strptime (take 8 (drop 6 id_num)) of
           None \<Rightarrow> Inr (info\<lparr>error_msg := err_birth_date\<rparr>)
         | Some birth_date \<Rightarrow>
             (let info = info\<lparr>age := age_on current_date birth_date,
                               birth_text := strftime birth_date,
                               zodiac_sign := get_zodiac_sign birth_date,
                               chinese_zodiac := get_chinese_zodiac (int (year birth_date)),
                               birth_season := get_birth_season birth_date\<rparr>
              in case int_char (id_num ! 16) of
                   Inl e \<Rightarrow> Inl e
                 | Inr gender_code \<Rightarrow>
                     Inr (info\<lparr>gender := (if gender_code mod 2 = 1 then male else female),
                                check_code := [id_num ! 17],
                                valid := True\<rparr>)))"

text \<open>
  \<^verbatim>\<open>parse_id_info(id_number, region_codes)\<close>, with the date that
  \<^verbatim>\<open>datetime.date.today()\<close> returns as the argument \<open>current_date\<close>. The line printed for
  a completed 17-digit number is not part of the result and is left out.
\<close>

definition parse_id_info :: "date \<Rightarrow> string \<Rightarrow> (string \<rightharpoonup> string) \<Rightarrow> py_error + id_info" where
  "parse_id_info current_date id_number region_codes =
     (let info = initial_info;
          id_num = upper (strip id_number)
      in if length id_num = 17 \<and> \<not> isdigit id_num
         then Inr (info\<lparr>error_msg := err_17_digits\<rparr>)
         else
           case (if length id_num = 17
                 then (case compute_check_code id_num of
                         Inl e \<Rightarrow> Inl e
                       | Inr c \<Rightarrow> Inr (id_num @ [c]))
                 else Inr id_num) of
             Inl e \<Rightarrow> Inl e
           | Inr id_num \<Rightarrow>
               if length id_num \<noteq> 15 \<and> length id_num \<noteq> 18
               then Inr (info\<lparr>error_msg := err_length\<rparr>)
               else
                 case (if length id_num = 15 then upgrade_15_to_18 id_num
                       else Inr (Some id_num)) of
                   Inl e \<Rightarrow> Inl e
                 | Inr upgraded \<Rightarrow>
                     if \<not> truthy upgraded
                     then Inr (info\<lparr>error_msg := err_15\<rparr>)
                     else
                       (let id_num = the upgraded
                        in if length id_num \<noteq> 18 \<or> \<not> isdigit (take 17 id_num)
                           then Inr (info\<lparr>error_msg := err_18_format\<rparr>)
                           else
                             case compute_check_code (take 17 id_num) of
                               Inl e \<Rightarrow> Inl e
                             | Inr expected_check \<Rightarrow>
                                 if id_num ! 17 \<noteq> expected_check
                                 then Inr (info\<lparr>error_msg := err_mismatch expected_check\<rparr>)
                                 else fill_info current_date id_num region_codes info))"

section \<open>Example data\<close>

text \<open>
  The directory and the reference date of the end-to-end example: Beijing
  (\<^verbatim>\<open>U+5317 U+4EAC U+5E02\<close>), its municipal district (\<^verbatim>\<open>U+5E02 U+8F96 U+533A\<close>) and
  Chaoyang (\<^verbatim>\<open>U+671D U+9633 U+533A\<close>), under the keys 110000, 110100 and 110105.
\<close>

definition beijing :: string where
  "beijing = [CHR 0xE5, CHR 0x8C, CHR 0x97, CHR 0xE4, CHR 0xBA, CHR 0xAC, CHR 0xE5, CHR 0xB8, CHR 0x82]"

definition municipal_district :: string where
  "municipal_district = [CHR 0xE5, CHR 0xB8, CHR 0x82, CHR 0xE8, CHR 0xBE, CHR 0x96, CHR 0xE5, CHR 0x8C, CHR 0xBA]"

definition chaoyang :: string where
  "chaoyang = [CHR 0xE6, CHR 0x9C, CHR 0x9D, CHR 0xE9, CHR 0x98, CHR 0xB3, CHR 0xE5, CHR 0x8C, CHR 0xBA]"

definition example_directory :: "string \<rightharpoonup> string" where
  "example_directory = map_of
     [(''110000'', beijing),
      (''110100'', beijing @ ''/'' @ municipal_district),
      (''110105'', beijing @ ''/'' @ municipal_district @ ''/'' @ chaoyang)]"

definition new_year_2024 :: date where
  "new_year_2024 = \<lparr>year = 2024, month = 1, day = 1\<rparr>"

definition mid_june_2024 :: date where
  "mid_june_2024 = \<lparr>year = 2024, month = 6, day = 15\<rparr>"

section \<open>The sign as the specification words it\<close>

text \<open>
  The specification's reading of the sign: with \<open>birth_num\<close> the month times 100 plus the
  day, take the first entry of the table whose cutoff exceeds \<open>birth_num\<close>; the sign is
  the one of the entry before it, and the last entry's sign when that first entry is
  the first of the table or when there is none.
\<close>

definition spec_zodiac_sign :: "nat \<Rightarrow> string" where
  "spec_zodiac_sign birth_num =
     (case List.find (\<lambda>i. birth_num < fst (zodiac_signs ! i)) [0..<length zodiac_signs] of
        None \<Rightarrow> snd (last zodiac_signs)
      | Some i \<Rightarrow> if i = 0 then snd (last zodiac_signs) else snd (zodiac_signs ! (i - 1)))"

section \<open>The check character: lemmas\<close>

lemma int_char_digit: "is_digit_char c \<Longrightarrow> int_char c = Inr (int (of_char c) - 48)"
  by (simp add: int_char_def)

lemma sum_terms_digits:
  "list_all (\<lambda>i. i < length s \<and> is_digit_char (s ! i)) ids \<Longrightarrow>
   sum_terms s ids = Inr (\<Sum>i\<leftarrow>ids. (int (of_char (s ! i)) - 48) * coefficients ! i)"
  by (induction ids) (simp_all add: int_char_digit)

lemma digits_upto:
  assumes "n \<le> length s" "list_all is_digit_char (take n s)"
  shows "list_all (\<lambda>i. i < length s \<and> is_digit_char (s ! i)) [0..<n]"
proof -
  have "is_digit_char (s ! i)" if "i < n" for i
  proof -
    have "take n s ! i \<in> set (take n s)"
      using that assms(1) by (intro nth_mem) simp
    then have "is_digit_char (take n s ! i)"
      using assms(2) by (simp add: list_all_iff)
    then show ?thesis using that by simp
  qed
  then show ?thesis using assms(1) by (auto simp: list_all_iff)
qed

lemma compute_check_code_digits:
  assumes "17 \<le> length s" "list_all is_digit_char (take 17 s)"
  shows "compute_check_code s =
     Inr (check_codes ! nat ((\<Sum>i\<leftarrow>[0..<17]. (int (of_char (s ! i)) - 48) * coefficients ! i) mod 11))"
  using sum_terms_digits [OF digits_upto [OF assms]]
  by (simp add: compute_check_code_def)

lemma compute_check_code_ok:
  assumes "17 \<le> length s" "list_all is_digit_char (take 17 s)"
  shows "\<exists>c. compute_check_code s = Inr c \<and> c \<in> set check_codes"
proof -
  let ?t = "(\<Sum>i\<leftarrow>[0..<17]. (int (of_char (s ! i)) - 48) * coefficients ! i) mod 11"
  have "0 \<le> ?t" "?t < 11" by simp_all
  then have "nat ?t < length check_codes" by (simp add: check_codes_def)
  then have "check_codes ! nat ?t \<in> set check_codes" by (rule nth_mem)
  then show ?thesis using compute_check_code_digits [OF assms] by blast
qed

text \<open>
  C3. For a string of 17 digits, \<^verbatim>\<open>compute_check_code\<close> returns (it raises nothing) the
  entry of the table \<^verbatim>\<open>10X98765432\<close> at the index: the sum over the 17 positions of the
  digit times its coefficient in \<^verbatim>\<open>[7,9,10,5,8,4,2,1,6,3,7,9,10,5,8,4,2]\<close>, modulo 11.
  For \<^verbatim>\<open>11010519491231002\<close> the check character is \<^verbatim>\<open>X\<close>.
\<close>

theorem check_code_is_weighted_sum_mod_11:
  assumes "length s = 17" "isdigit s"
  shows "compute_check_code s =
     Inr (''10X98765432'' ! nat ((\<Sum>i<17. (int (of_char (s ! i)) - 48) *
        [7, 9, 10, 5, 8, 4, 2, 1, 6, 3, 7, 9, 10, 5, 8, 4, 2] ! i) mod 11))
     \<and> compute_check_code ''11010519491231002'' = Inr (CHR ''X'')"
proof -
  have "list_all is_digit_char (take 17 s)" "17 \<le> length s"
    using assms by (simp_all add: isdigit_def)
  then have "compute_check_code s =
     Inr (check_codes ! nat ((\<Sum>i\<leftarrow>[0..<17]. (int (of_char (s ! i)) - 48) * coefficients ! i) mod 11))"
    by (intro compute_check_code_digits)
  moreover have "(\<Sum>i\<leftarrow>[0..<17]. (int (of_char (s ! i)) - 48) * coefficients ! i)
      = (\<Sum>i<17. (int (of_char (s ! i)) - 48) * coefficients ! i)"
    by (simp add: sum_list_sum_nth atLeast0LessThan)
  moreover have "compute_check_code ''11010519491231002'' = Inr (CHR ''X'')"
    by code_simp
  ultimately show ?thesis by (simp add: check_codes_def coefficients_def)
qed

theorem check_code_is_weighted_sum_mod_11_witness:
  "length ''11010519900307851'' = 17 \<and> isdigit ''11010519900307851'' \<and>
   compute_check_code ''11010519900307851'' = Inr (CHR ''0'')"
proof -
  have h: "length ''11010519900307851'' = 17" "isdigit ''11010519900307851''"
    by (simp_all add: isdigit_def is_digit_char_def)
  have "(\<Sum>i<17. (int (of_char (''11010519900307851'' ! i)) - 48) *
        [7, 9, 10, 5, 8, 4, 2, 1, 6, 3, 7, 9, 10, 5, 8, 4, 2] ! i) = 254"
    by (simp add: lessThan_nat_numeral lessThan_Suc)
  then show ?thesis
    using h check_code_is_weighted_sum_mod_11 [OF h] by simp
qed

section \<open>Strings, dates and tables: lemmas\<close>

lemma digit_not_space: "is_digit_char c \<Longrightarrow> \<not> is_space c"
  by (auto simp: is_digit_char_def is_space_def Let_def)

lemma digit_upper: "is_digit_char c \<Longrightarrow> upper_char c = c"
  by (auto simp: is_digit_char_def upper_char_def Let_def)

lemma check_code_not_space: "c \<in> set check_codes \<Longrightarrow> \<not> is_space c"
  by (auto simp: check_codes_def is_space_def)

lemma check_code_upper: "c \<in> set check_codes \<Longrightarrow> upper_char c = c"
  by (auto simp: check_codes_def upper_char_def)

lemma strip_unchanged:
  assumes "s \<noteq> []" "\<not> is_space (hd s)" "\<not> is_space (last s)"
  shows "strip s = s"
proof -
  have "dropWhile is_space s = s"
    using assms by (simp add: dropWhile_eq_self_iff)
  moreover have "dropWhile is_space (rev s) = rev s"
    using assms by (simp add: dropWhile_eq_self_iff hd_rev)
  ultimately show ?thesis by (simp add: strip_def)
qed

lemma length_upper: "length (upper s) = length s"
  by (simp add: upper_def)

lemma upper_digits: "list_all is_digit_char s \<Longrightarrow> upper s = s"
  by (induction s) (simp_all add: upper_def digit_upper)

lemma make_date_valid: "make_date y m d = Some b \<Longrightarrow> valid_date b"
  by (auto simp: make_date_def Let_def split: if_splits)

lemma strptime_valid: "strptime x = Some b \<Longrightarrow> valid_date b"
  by (auto simp: strptime_def split: list.splits prod.splits if_splits dest: make_date_valid)






lemma birth_season_cases: "get_birth_season b \<in> {spring, summer, autumn, winter}"
  by (simp add: get_birth_season_def Let_def)



section \<open>The region lookup and the parser: lemmas\<close>

lemma split_nonempty: "split sep s \<noteq> []"
  by (induction s) (simp_all split: list.splits)

lemma region_details_nonempty: "region_details code rc \<noteq> Some []"
  by (simp add: region_details_def Let_def)

lemma region_details_hd:
  "region_details code rc = Some ds \<Longrightarrow>
   ds \<noteq> [] \<and> rc (take 2 code @ ''0000'') = Some (hd ds) \<and> hd ds \<noteq> []"
  by (auto simp: region_details_def Let_def truthy_def split: if_splits option.splits)

lemma get_region_detail_nonempty: "get_region_detail code rc \<noteq> []"
  by (simp add: get_region_detail_def split: option.splits)




lemma nth_take_digit:
  assumes "isdigit (take 17 n)" "i < 17" "i < length n"
  shows "is_digit_char (n ! i)"
proof -
  have "take 17 n ! i \<in> set (take 17 n)" using assms by (intro nth_mem) simp
  then have "is_digit_char (take 17 n ! i)"
    using assms(1) by (simp add: isdigit_def list_all_iff)
  then show ?thesis using assms by simp
qed

lemma fill_info_cases:
  assumes "length n = 18" "isdigit (take 17 n)"
  obtains
    (bad_date) "strptime (take 8 (drop 6 n)) = None"
      "fill_info cur n rc i0 =
         Inr (i0\<lparr>address := join '' '' (get_region_detail (take 6 n) rc),
                 error_msg := err_birth_date\<rparr>)"
  | (good_date) b where "strptime (take 8 (drop 6 n)) = Some b" "valid_date b"
      "fill_info cur n rc i0 =
         Inr (i0\<lparr>address := join '' '' (get_region_detail (take 6 n) rc),
                 age := age_on cur b,
                 birth_text := strftime b,
                 zodiac_sign := get_zodiac_sign b,
                 chinese_zodiac := get_chinese_zodiac (int (year b)),
                 birth_season := get_birth_season b,
                 gender := (if (int (of_char (n ! 16)) - 48) mod 2 = 1 then male else female),
                 check_code := [n ! 17],
                 valid := True\<rparr>)"
proof (cases "strptime (take 8 (drop 6 n))")
  case None
  then have "fill_info cur n rc i0 =
         Inr (i0\<lparr>address := join '' '' (get_region_detail (take 6 n) rc),
                 error_msg := err_birth_date\<rparr>)"
    by (simp add: fill_info_def Let_def)
  with None show ?thesis by (rule bad_date)
next
  case (Some b)
  have "is_digit_char (n ! 16)" using assms by (intro nth_take_digit) simp_all
  then have "int_char (n ! 16) = Inr (int (of_char (n ! 16)) - 48)" by (rule int_char_digit)
  then have "fill_info cur n rc i0 =
         Inr (i0\<lparr>address := join '' '' (get_region_detail (take 6 n) rc),
                 age := age_on cur b,
                 birth_text := strftime b,
                 zodiac_sign := get_zodiac_sign b,
                 chinese_zodiac := get_chinese_zodiac (int (year b)),
                 birth_season := get_birth_season b,
                 gender := (if (int (of_char (n ! 16)) - 48) mod 2 = 1 then male else female),
                 check_code := [n ! 17],
                 valid := True\<rparr>)"
    using Some by (simp add: fill_info_def Let_def)
  with Some strptime_valid [OF Some] show ?thesis by (rule good_date)
qed

lemma append_check:
  assumes "length m = 17"
  shows "length (m @ [c]) = 18" "take 17 (m @ [c]) = m" "(m @ [c]) ! 17 = c"
  using assms by (simp_all add: nth_append)

lemma parse_cases:
  obtains
    (e17) "length (upper (strip s)) = 17" "\<not> isdigit (upper (strip s))"
      "parse_id_info cur s rc = Inr (initial_info\<lparr>error_msg := err_17_digits\<rparr>)"
  | (elen) "length (upper (strip s)) \<noteq> 15" "length (upper (strip s)) \<noteq> 17"
      "length (upper (strip s)) \<noteq> 18"
      "parse_id_info cur s rc = Inr (initial_info\<lparr>error_msg := err_length\<rparr>)"
  | (e15) "length (upper (strip s)) = 15" "\<not> isdigit (upper (strip s))"
      "parse_id_info cur s rc = Inr (initial_info\<lparr>error_msg := err_15\<rparr>)"
  | (e18) "length (upper (strip s)) = 18" "\<not> isdigit (take 17 (upper (strip s)))"
      "parse_id_info cur s rc = Inr (initial_info\<lparr>error_msg := err_18_format\<rparr>)"
  | (mismatch) c where "length (upper (strip s)) = 18" "isdigit (take 17 (upper (strip s)))"
      "compute_check_code (take 17 (upper (strip s))) = Inr c" "upper (strip s) ! 17 \<noteq> c"
      "parse_id_info cur s rc = Inr (initial_info\<lparr>error_msg := err_mismatch c\<rparr>)"
  | (verified) n where "length n = 18" "isdigit (take 17 n)"
      "compute_check_code (take 17 n) = Inr (n ! 17)"
      "length (upper (strip s)) = 18 \<and> n = upper (strip s) \<or>
       length (upper (strip s)) = 17 \<and> isdigit (upper (strip s)) \<and> take 17 n = upper (strip s) \<or>
       length (upper (strip s)) = 15 \<and> isdigit (upper (strip s)) \<and>
         take 17 n = take 6 (upper (strip s)) @ ''19'' @ drop 6 (upper (strip s))"
      "parse_id_info cur s rc = fill_info cur n rc initial_info"
proof -
  let ?t = "upper (strip s)"
  consider "length ?t = 17" | "length ?t = 15" | "length ?t = 18"
    | "length ?t \<noteq> 15" "length ?t \<noteq> 17" "length ?t \<noteq> 18" by blast
  then show ?thesis
  proof cases
    case 1
    show ?thesis
    proof (cases "isdigit ?t")
      case False
      with 1 have "parse_id_info cur s rc = Inr (initial_info\<lparr>error_msg := err_17_digits\<rparr>)"
        by (simp add: parse_id_info_def Let_def)
      with 1 False show ?thesis by (rule e17)
    next
      case True
      with 1 have d: "17 \<le> length ?t" "list_all is_digit_char (take 17 ?t)"
        by (simp_all add: isdigit_def)
      from compute_check_code_ok [OF d] obtain c where c: "compute_check_code ?t = Inr c" by blast
      let ?n = "?t @ [c]"
      note n = append_check [OF 1, of c]
      have "parse_id_info cur s rc = fill_info cur ?n rc initial_info"
        using 1 True c n by (simp add: parse_id_info_def Let_def truthy_def)
      moreover have "isdigit (take 17 ?n)" using n True by simp
      moreover have "compute_check_code (take 17 ?n) = Inr (?n ! 17)" using n c by simp
      moreover have "length ?t = 17 \<and> isdigit ?t \<and> take 17 ?n = ?t" using 1 True n by simp
      ultimately show ?thesis using n(1) by (intro verified [of ?n]) simp_all
    qed
  next
    case 2
    show ?thesis
    proof (cases "isdigit ?t")
      case False
      with 2 have "parse_id_info cur s rc = Inr (initial_info\<lparr>error_msg := err_15\<rparr>)"
        by (simp add: parse_id_info_def Let_def upgrade_15_to_18_def truthy_def)
      with 2 False show ?thesis by (rule e15)
    next
      case True
      let ?m = "take 6 ?t @ ''19'' @ drop 6 ?t"
      have m: "length ?m = 17" using 2 by simp
      have "list_all is_digit_char ?t" using True by (simp add: isdigit_def)
      then have "list_all is_digit_char (take 6 ?t)" "list_all is_digit_char (drop 6 ?t)"
        by (auto simp: list_all_iff dest: in_set_takeD in_set_dropD)
      then have md: "list_all is_digit_char ?m" by (simp add: is_digit_char_def)
      then have d: "17 \<le> length ?m" "list_all is_digit_char (take 17 ?m)" using m by simp_all
      from compute_check_code_ok [OF d] obtain c where c: "compute_check_code ?m = Inr c" by blast
      let ?n = "?m @ [c]"
      note n = append_check [OF m, of c]
      have dm: "isdigit ?m" using md by (simp add: isdigit_def)
      have up: "upgrade_15_to_18 ?t = Inr (Some ?n)"
        using 2 True c by (simp add: upgrade_15_to_18_def Let_def)
      have "parse_id_info cur s rc = fill_info cur ?n rc initial_info"
        unfolding parse_id_info_def Let_def
        using 2 up n dm c by (simp add: truthy_def)
      moreover have "isdigit (take 17 ?n)" using n dm by simp
      moreover have "compute_check_code (take 17 ?n) = Inr (?n ! 17)" using n c by simp
      moreover have "length ?t = 15 \<and> isdigit ?t \<and> take 17 ?n = ?m" using 2 True n by simp
      ultimately show ?thesis using n(1) by (intro verified [of ?n]) simp_all
    qed
  next
    case 3
    show ?thesis
    proof (cases "isdigit (take 17 ?t)")
      case False
      with 3 have "parse_id_info cur s rc = Inr (initial_info\<lparr>error_msg := err_18_format\<rparr>)"
        by (auto simp: parse_id_info_def Let_def truthy_def)
      with 3 False show ?thesis by (rule e18)
    next
      case True
      have d: "17 \<le> length (take 17 ?t)" "list_all is_digit_char (take 17 (take 17 ?t))"
        using 3 True by (simp_all add: isdigit_def)
      from compute_check_code_ok [OF d] obtain c
        where c: "compute_check_code (take 17 ?t) = Inr c" by blast
      have ne: "?t \<noteq> []" using 3 by auto
      show ?thesis
      proof (cases "?t ! 17 = c")
        case False
        have "parse_id_info cur s rc = Inr (initial_info\<lparr>error_msg := err_mismatch c\<rparr>)"
          unfolding parse_id_info_def Let_def
          using 3 True c False ne by (simp add: truthy_def)
        with 3 True c False show ?thesis by (intro mismatch [of c]) simp_all
      next
        case eq: True
        have "parse_id_info cur s rc = fill_info cur ?t rc initial_info"
          unfolding parse_id_info_def Let_def
          using 3 True c eq ne by (simp add: truthy_def)
        with 3 True c eq show ?thesis by (intro verified [of "upper (strip s)"]) simp_all
      qed
    qed
  next
    case 4
    then have "parse_id_info cur s rc = Inr (initial_info\<lparr>error_msg := err_length\<rparr>)"
      by (simp add: parse_id_info_def Let_def)
    with 4 show ?thesis by (rule elen)
  qed
qed

section \<open>The messages: lemmas\<close>

lemma err_nonempty:
  "err_17_digits \<noteq> []" "err_length \<noteq> []" "err_15 \<noteq> []" "err_18_format \<noteq> []"
  "err_mismatch c \<noteq> []" "err_birth_date \<noteq> []"
  by (simp_all add: err_17_digits_def err_length_def err_15_def err_18_format_def
        err_mismatch_def err_birth_date_def)

lemma err_mismatch_distinct:
  "err_mismatch c \<noteq> err_17_digits" "err_mismatch c \<noteq> err_length" "err_mismatch c \<noteq> err_15"
  "err_mismatch c \<noteq> err_18_format" "err_mismatch c \<noteq> err_birth_date"
  by (simp_all add: err_17_digits_def err_length_def err_15_def err_18_format_def
        err_mismatch_def err_birth_date_def)



section \<open>The end-to-end example\<close>

text \<open>
  The number \<^verbatim>\<open>110105199003078515\<close> does not pass the check of lines 178 to 181: the
  weighted sum of its first 17 digits is 254, which is 1 modulo 11, so the expected
  check character is \<^verbatim>\<open>0\<close> and not \<^verbatim>\<open>5\<close>. The parser returns the initial result with the
  message of the mismatch, and the validity stays false.
\<close>

theorem example_number_fails_checksum:
  "parse_id_info new_year_2024 ''110105199003078515'' example_directory =
     Inr (initial_info\<lparr>error_msg := err_mismatch (CHR ''0'')\<rparr>)
   \<and> \<not> valid (initial_info\<lparr>error_msg := err_mismatch (CHR ''0'')\<rparr>)"
  by code_simp

text \<open>
  Claim C1, amended. With the example directory and the reference date 2024-01-01, the
  input \<^verbatim>\<open>110105199003078515\<close> is rejected with the check mismatch that names \<^verbatim>\<open>0\<close>, every
  other field at its initial value. The same 17 digits with their check character,
  \<^verbatim>\<open>110105199003078510\<close>, give a valid result: the address is exactly the three names
  joined by blanks, the sex is male because the digit at index 16 is 1, the age is 33,
  the age on 2024-01-01 of somebody born on 1990-03-07, and the birth date reads
  \<^verbatim>\<open>1990-03-07\<close>.
\<close>

theorem example_number_end_to_end:
  "parse_id_info new_year_2024 ''110105199003078515'' example_directory =
     Inr (initial_info\<lparr>error_msg := err_mismatch (CHR ''0'')\<rparr>)
   \<and> parse_id_info new_year_2024 ''110105199003078510'' example_directory =
     Inr \<lparr>address = beijing @ '' '' @ municipal_district @ '' '' @ chaoyang,
          birth_text = ''1990-03-07'', age = 33, gender = male, check_code = ''0'',
          valid = True, error_msg = [], zodiac_sign = pisces, chinese_zodiac = zodiacs ! 6,
          birth_season = spring\<rparr>
   \<and> int_char (''110105199003078510'' ! 16) = Inr 1
   \<and> age_on new_year_2024 \<lparr>year = 1990, month = 3, day = 7\<rparr> = 33"
  by code_simp

theorem example_number_end_to_end_witness:
  "\<exists>info. parse_id_info new_year_2024 ''110105199003078510'' example_directory = Inr info
      \<and> valid info
      \<and> address info = beijing @ '' '' @ municipal_district @ '' '' @ chaoyang
      \<and> gender info = male
      \<and> age info = 33"
  using example_number_end_to_end by simp

section \<open>The invariant of the result\<close>



text \<open>
  \<^verbatim>\<open>compute_check_code\<close> raises \<^verbatim>\<open>ValueError\<close> as soon as one of the first 17 characters is
  not a decimal digit, and \<^verbatim>\<open>parse_id_info\<close> catches no exception outside the date
  parsing: what keeps the exception away is the test \<^verbatim>\<open>isdigit\<close> of lines 152, 72 and
  173. On ASCII text that test is exactly "every character is a decimal digit", which
  is why the parser returns for every ASCII input. Python's \<^verbatim>\<open>str.isdigit\<close> also accepts
  characters beyond ASCII that \<^verbatim>\<open>int\<close> rejects (the superscript two, \<^verbatim>\<open>U+00B2\<close>): on a
  17- or 18-character input with such a character among the first 17, line 61 raises
  and the parser returns nothing. That input is outside the embedding, which reads the
  input as ASCII text; the theorem below is stated for ASCII input for this reason.
\<close>

lemma check_code_raises:
  assumes "17 \<le> length s" "\<not> list_all is_digit_char (take 17 s)"
  shows "compute_check_code s = Inl ValueError"
proof -
  have "\<lbrakk>\<forall>i \<in> set is. i < length s; \<exists>i \<in> set is. \<not> is_digit_char (s ! i)\<rbrakk>
        \<Longrightarrow> sum_terms s is = Inl ValueError" for "is"
  proof (induction "is")
    case Nil
    then show ?case by simp
  next
    case (Cons i "is")
    show ?case
    proof (cases "is_digit_char (s ! i)")
      case False
      then show ?thesis using Cons.prems(1) by (simp add: int_char_def)
    next
      case True
      then have "sum_terms s is = Inl ValueError" using Cons by auto
      then show ?thesis using True Cons.prems(1) by (simp add: int_char_def)
    qed
  qed
  moreover have "\<forall>i \<in> set [0..<17]. i < length s" using assms(1) by auto
  moreover have "\<exists>i \<in> set [0..<17]. \<not> is_digit_char (s ! i)"
  proof -
    from assms(2) obtain c where "c \<in> set (take 17 s)" "\<not> is_digit_char c"
      by (auto simp: list_all_iff)
    then obtain i where "i < length (take 17 s)" "take 17 s ! i = c"
      by (auto simp: in_set_conv_nth)
    then have "i < 17" "s ! i = c" by simp_all
    then show ?thesis using \<open>\<not> is_digit_char c\<close> by auto
  qed
  ultimately show ?thesis by (simp add: compute_check_code_def)
qed



section \<open>The region lookup\<close>

text \<open>
  A directory that holds the province key with an empty name: the key \<^verbatim>\<open>110000\<close> is
  present, the city key \<^verbatim>\<open>110100\<close> and the district key \<^verbatim>\<open>110105\<close> are absent, and the
  address is the text for an unknown province, not the province's (empty) name: the
  test \<^verbatim>\<open>if province:\<close> of line 34 is false for the empty string as it is for \<^verbatim>\<open>None\<close>.
\<close>

theorem empty_province_name_is_unknown:
  "[''110000'' \<mapsto> []] ''110000'' = Some []
   \<and> [''110000'' \<mapsto> []] ''110100'' = None
   \<and> [''110000'' \<mapsto> []] ''110105'' = None
   \<and> get_region_detail ''110105'' [''110000'' \<mapsto> []] = [unknown_province]
   \<and> join '' '' (get_region_detail ''110105'' [''110000'' \<mapsto> []]) = unknown_province
   \<and> unknown_province \<noteq> []"
  by (simp add: get_region_detail_def region_details_def truthy_def unknown_province_def)

text \<open>
  Claim C6, amended: "present" is read as present with a name that is not empty. For
  every code and directory: if the province key, the first two characters followed by
  \<^verbatim>\<open>0000\<close>, is absent, the result is the one-element list of the text for an unknown
  province, whatever the city and district keys hold; if the province key holds a name
  that is not empty and the city key and the district key are absent, the result is
  that name alone, and so is the address joined from it; and whenever the province key
  holds a name that is not empty, the result is that name, followed by the last
  \<^verbatim>\<open>/\<close>-segment of the city entry exactly when the city key differs from the province key
  and holds a text that is not empty, followed by the last \<^verbatim>\<open>/\<close>-segment of the district
  entry exactly when it holds a text that is not empty.
\<close>

theorem region_fallbacks:
  "(rc (take 2 code @ ''0000'') = None \<longrightarrow> get_region_detail code rc = [unknown_province])
   \<and> (rc (take 2 code @ ''0000'') = Some p \<and> p \<noteq> [] \<and>
        rc (take 4 code @ ''00'') = None \<and> rc code = None \<longrightarrow>
          get_region_detail code rc = [p] \<and> join '' '' (get_region_detail code rc) = p)
   \<and> (rc (take 2 code @ ''0000'') = Some p \<and> p \<noteq> [] \<longrightarrow>
          get_region_detail code rc =
            p # (if take 4 code @ ''00'' \<noteq> take 2 code @ ''0000'' \<and> truthy (rc (take 4 code @ ''00''))
                 then [last (split (CHR ''/'') (the (rc (take 4 code @ ''00''))))] else [])
              @ (if truthy (rc code) then [last (split (CHR ''/'') (the (rc code)))] else []))"
  by (auto simp: get_region_detail_def region_details_def truthy_def Let_def)

theorem region_fallbacks_witness:
  "example_directory (take 2 ''110105'' @ ''0000'') = Some beijing \<and> beijing \<noteq> []
   \<and> get_region_detail ''110105'' example_directory = [beijing, municipal_district, chaoyang]
   \<and> Map.empty (take 2 ''110105'' @ ''0000'') = (None :: string option)
   \<and> get_region_detail ''110105'' Map.empty = [unknown_province]
   \<and> [''110000'' \<mapsto> beijing] (take 4 ''110105'' @ ''00'') = None
   \<and> [''110000'' \<mapsto> beijing] ''110105'' = None
   \<and> join '' '' (get_region_detail ''110105'' [''110000'' \<mapsto> beijing]) = beijing"
proof -
  have b: "beijing \<noteq> []" by (simp add: beijing_def)
  have e: "example_directory ''110000'' = Some beijing"
    "example_directory ''110100'' = Some (beijing @ ''/'' @ municipal_district)"
    "example_directory ''110105'' = Some (beijing @ ''/'' @ municipal_district @ ''/'' @ chaoyang)"
    by (simp_all add: example_directory_def)
  have s: "last (split (CHR ''/'') (beijing @ ''/'' @ municipal_district)) = municipal_district"
    "last (split (CHR ''/'') (beijing @ ''/'' @ municipal_district @ ''/'' @ chaoyang)) = chaoyang"
    by (simp_all add: beijing_def municipal_district_def chaoyang_def)
  have "get_region_detail ''110105'' example_directory = [beijing, municipal_district, chaoyang]"
    using region_fallbacks [of example_directory "''110105''" beijing] b e s
    by (simp add: truthy_def)
  moreover have "get_region_detail ''110105'' Map.empty = [unknown_province]"
    using region_fallbacks [of Map.empty "''110105''" beijing] by simp
  moreover have "join '' '' (get_region_detail ''110105'' [''110000'' \<mapsto> beijing]) = beijing"
    using region_fallbacks [of "[''110000'' \<mapsto> beijing]" "''110105''" beijing] b by simp
  ultimately show ?thesis using b e by simp
qed

text \<open>
  Claim C9. For every code and directory the result is not empty, and it is either the
  one-element list of the text for an unknown province or a list whose first element is
  the value under the province key. The list \<^verbatim>\<open>details\<close> is never empty at line 51, so
  the fallback to the text for an unknown region is never taken: a result equal to that
  one-element list can only be the province's own name. And the text for an unknown
  province is the result both when the province key is absent and when it holds the
  empty string.
\<close>

theorem region_result_shape:
  "get_region_detail code rc \<noteq> []
   \<and> (get_region_detail code rc = [unknown_province] \<or>
        rc (take 2 code @ ''0000'') = Some (hd (get_region_detail code rc)))
   \<and> region_details code rc \<noteq> Some []
   \<and> (get_region_detail code rc = [unknown_region] \<longrightarrow>
        rc (take 2 code @ ''0000'') = Some unknown_region)
   \<and> (rc (take 2 code @ ''0000'') = None \<or> rc (take 2 code @ ''0000'') = Some [] \<longrightarrow>
        get_region_detail code rc = [unknown_province])"
proof (cases "region_details code rc")
  case None
  then have "rc (take 2 code @ ''0000'') = None \<or> rc (take 2 code @ ''0000'') = Some []"
    by (auto simp: region_details_def truthy_def Let_def split: option.splits if_splits)
  moreover have "unknown_province \<noteq> unknown_region"
    by (simp add: unknown_province_def unknown_region_def)
  ultimately show ?thesis using None by (auto simp: get_region_detail_def)
next
  case (Some ds)
  from region_details_hd [OF Some] show ?thesis using Some
    by (auto simp: get_region_detail_def)
qed

theorem region_result_shape_witness:
  "get_region_detail ''110105'' [''110000'' \<mapsto> []] = [unknown_province]
   \<and> get_region_detail ''110105'' [''110000'' \<mapsto> unknown_region] = [unknown_region]
   \<and> [''110000'' \<mapsto> unknown_region] (take 2 ''110105'' @ ''0000'') = Some unknown_region"
proof -
  have "get_region_detail ''110105'' [''110000'' \<mapsto> []] = [unknown_province]"
    using region_result_shape [of "''110105''" "[''110000'' \<mapsto> []]"] by simp
  moreover have g: "get_region_detail ''110105'' [''110000'' \<mapsto> unknown_region] = [unknown_region]"
    by (simp add: get_region_detail_def region_details_def truthy_def unknown_region_def)
  moreover have "[''110000'' \<mapsto> unknown_region] (take 2 ''110105'' @ ''0000'') = Some unknown_region"
    using region_result_shape [of "''110105''" "[''110000'' \<mapsto> unknown_region]"] g by blast
  ultimately show ?thesis by simp
qed

section \<open>Numbers completed by the parser\<close>

lemmas err_mismatch_distinct' = err_mismatch_distinct [symmetric] err_nonempty(5) [symmetric]

lemma fill_info_error:
  assumes "length n = 18" "isdigit (take 17 n)" "fill_info cur n rc initial_info = Inr info"
  shows "error_msg info = err_birth_date \<or> error_msg info = []"
  using assms(1,2)
proof (cases rule: fill_info_cases [of n cur rc initial_info])
  case bad_date
  then show ?thesis using assms(3) by auto
next
  case (good_date b)
  then show ?thesis using assms(3) by (auto simp: initial_info_def)
qed

lemma fill_info_total:
  assumes "length n = 18" "isdigit (take 17 n)"
  shows "\<exists>info. fill_info cur n rc initial_info = Inr info"
  using assms by (cases rule: fill_info_cases [of n cur rc initial_info]) auto

text \<open>
  Claim C10. For every ASCII input whose stripped, upper-cased text is 15 or 17 digits,
  the parser returns a result whose error message is not the one of a check mismatch,
  whatever the expected character: the parser goes on to lines 183 to 207 with an
  18-character number whose first 17 characters are the 17 digits (the input itself,
  or the 15 digits with \<^verbatim>\<open>19\<close> inserted after the sixth) and whose last character is
  the check character computed from them. And a result that carries the message of a
  check mismatch comes only from an input of 18 characters.
\<close>

theorem completed_numbers_never_mismatch:
  assumes "ascii_str s"
  shows "((length (upper (strip s)) = 15 \<or> length (upper (strip s)) = 17) \<and>
          isdigit (upper (strip s)) \<longrightarrow>
            (\<exists>info n. parse_id_info cur s rc = Inr info \<and>
               (\<forall>c. error_msg info \<noteq> err_mismatch c) \<and>
               length n = 18 \<and>
               take 17 n = (if length (upper (strip s)) = 17 then upper (strip s)
                            else take 6 (upper (strip s)) @ ''19'' @ drop 6 (upper (strip s))) \<and>
               compute_check_code (take 17 n) = Inr (n ! 17) \<and>
               parse_id_info cur s rc = fill_info cur n rc initial_info))
       \<and> (\<forall>info c. parse_id_info cur s rc = Inr info \<and> error_msg info = err_mismatch c \<longrightarrow>
            length (upper (strip s)) = 18)"
proof (cases rule: parse_cases [of s cur rc])
  case e17
  then show ?thesis by (simp add: err_mismatch_distinct')
next
  case elen
  then show ?thesis by (simp add: err_mismatch_distinct')
next
  case e15
  then show ?thesis by (simp add: err_mismatch_distinct')
next
  case e18
  then show ?thesis by (simp add: err_mismatch_distinct')
next
  case (mismatch c)
  then show ?thesis by simp
next
  case (verified n)
  from fill_info_total [OF verified(1,2)] obtain info
    where info: "fill_info cur n rc initial_info = Inr info" by blast
  from fill_info_error [OF verified(1,2) info]
  have ne: "\<forall>c. error_msg info \<noteq> err_mismatch c"
    by (auto simp: err_mismatch_distinct')
  have first: "(length (upper (strip s)) = 15 \<or> length (upper (strip s)) = 17) \<and>
          isdigit (upper (strip s)) \<longrightarrow>
            (\<exists>info n. parse_id_info cur s rc = Inr info \<and>
               (\<forall>c. error_msg info \<noteq> err_mismatch c) \<and>
               length n = 18 \<and>
               take 17 n = (if length (upper (strip s)) = 17 then upper (strip s)
                            else take 6 (upper (strip s)) @ ''19'' @ drop 6 (upper (strip s))) \<and>
               compute_check_code (take 17 n) = Inr (n ! 17) \<and>
               parse_id_info cur s rc = fill_info cur n rc initial_info)"
  proof
    assume a: "(length (upper (strip s)) = 15 \<or> length (upper (strip s)) = 17) \<and>
          isdigit (upper (strip s))"
    with verified(4) have
      "take 17 n = (if length (upper (strip s)) = 17 then upper (strip s)
                            else take 6 (upper (strip s)) @ ''19'' @ drop 6 (upper (strip s)))"
      by auto
    with verified(1,3,5) info ne show "\<exists>info n. parse_id_info cur s rc = Inr info \<and>
               (\<forall>c. error_msg info \<noteq> err_mismatch c) \<and>
               length n = 18 \<and>
               take 17 n = (if length (upper (strip s)) = 17 then upper (strip s)
                            else take 6 (upper (strip s)) @ ''19'' @ drop 6 (upper (strip s))) \<and>
               compute_check_code (take 17 n) = Inr (n ! 17) \<and>
               parse_id_info cur s rc = fill_info cur n rc initial_info"
      by (intro exI [of _ info] exI [of _ n]) simp
  qed
  have second: "\<forall>info c. parse_id_info cur s rc = Inr info \<and> error_msg info = err_mismatch c \<longrightarrow>
            length (upper (strip s)) = 18"
    using verified(5) info ne by simp
  from first second show ?thesis by blast
qed

theorem completed_numbers_never_mismatch_witness:
  "ascii_str ''11010519900307851'' \<and> length (upper (strip ''11010519900307851'')) = 17 \<and>
   isdigit (upper (strip ''11010519900307851'')) \<and>
   (\<exists>info. parse_id_info new_year_2024 ''11010519900307851'' example_directory = Inr info \<and>
      (\<forall>c. error_msg info \<noteq> err_mismatch c)) \<and>
   ascii_str ''110105199003078515'' \<and>
   parse_id_info new_year_2024 ''110105199003078515'' example_directory =
     Inr (initial_info\<lparr>error_msg := err_mismatch (CHR ''0'')\<rparr>) \<and>
   length (upper (strip ''110105199003078515'')) = 18"
proof -
  have a: "ascii_str ''11010519900307851''" "ascii_str ''110105199003078515''"
    by (simp_all add: ascii_str_def)
  have l: "length (upper (strip ''11010519900307851'')) = 17"
    "isdigit (upper (strip ''11010519900307851''))"
    by (simp_all add: upper_def strip_def is_space_def isdigit_def is_digit_char_def upper_char_def)
  have m: "parse_id_info new_year_2024 ''110105199003078515'' example_directory =
     Inr (initial_info\<lparr>error_msg := err_mismatch (CHR ''0'')\<rparr>)"
    by code_simp
  have x: "\<exists>info. parse_id_info new_year_2024 ''11010519900307851'' example_directory = Inr info \<and>
      (\<forall>c. error_msg info \<noteq> err_mismatch c)"
    using completed_numbers_never_mismatch [OF a(1), of new_year_2024 example_directory] l
    by blast
  have "\<forall>info c. parse_id_info new_year_2024 ''110105199003078515'' example_directory = Inr info \<and>
          error_msg info = err_mismatch c \<longrightarrow>
          length (upper (strip ''110105199003078515'')) = 18"
    using completed_numbers_never_mismatch [OF a(2), of new_year_2024 example_directory]
    by (rule conjunct2)
  from this [rule_format, of "initial_info\<lparr>error_msg := err_mismatch (CHR ''0'')\<rparr>" "CHR ''0''"] m
  have y: "length (upper (strip ''110105199003078515'')) = 18" by simp
  show ?thesis by (intro conjI; fact)
qed

section \<open>Valid numbers and their corruption\<close>

lemma strip_upper_number:
  assumes "length m = 17" "list_all is_digit_char m" "\<not> is_space c"
  shows "upper (strip (m @ [c])) = m @ [upper_char c]"
proof -
  have ne: "m \<noteq> []" using assms(1) by auto
  then have "is_digit_char (hd m)" using assms(2) by (cases m) simp_all
  then have "\<not> is_space (hd (m @ [c]))" using ne by (simp add: digit_not_space)
  then have "strip (m @ [c]) = m @ [c]" using assms(3) by (intro strip_unchanged) simp_all
  moreover have "upper (m @ [c]) = upper m @ [upper_char c]" by (simp add: upper_def)
  ultimately show ?thesis using upper_digits [OF assms(2)] by simp
qed

lemma replace_last:
  assumes "length s = 18"
  shows "s[17 := c] = take 17 s @ [c]"
  using assms by (simp add: upd_conv_take_nth_drop)

lemma parse_18:
  assumes "upper (strip s) = t" "length t = 18" "isdigit (take 17 t)"
    "compute_check_code (take 17 t) = Inr e"
  shows "parse_id_info cur s rc =
         (if t ! 17 = e then fill_info cur t rc initial_info
          else Inr (initial_info\<lparr>error_msg := err_mismatch e\<rparr>))"
proof -
  have ne: "t \<noteq> []" using assms(2) by auto
  show ?thesis
    unfolding parse_id_info_def Let_def
    using assms ne by (simp add: truthy_def)
qed

text \<open>
  The valid number \<^verbatim>\<open>11010519491231002X\<close> with its last character replaced by another
  one, the lower-case \<^verbatim>\<open>x\<close> or a blank: line 147 turns the \<^verbatim>\<open>x\<close> back into \<^verbatim>\<open>X\<close>, and
  strips the blank, which leaves 17 digits that lines 151 to 155 complete with their
  check character. Both inputs parse as valid; there is no check mismatch.
\<close>

theorem lower_case_and_blank_still_valid:
  "compute_check_code (take 17 ''11010519491231002X'') = Inr (''11010519491231002X'' ! 17)
   \<and> CHR ''x'' \<noteq> ''11010519491231002X'' ! 17
   \<and> CHR '' '' \<noteq> ''11010519491231002X'' ! 17
   \<and> parse_id_info new_year_2024 (''11010519491231002X''[17 := CHR ''x'']) Map.empty =
       Inr \<lparr>address = unknown_province, birth_text = ''1949-12-31'', age = 74, gender = female,
            check_code = ''X'', valid = True, error_msg = [], zodiac_sign = capricorn,
            chinese_zodiac = zodiacs ! 1, birth_season = winter\<rparr>
   \<and> parse_id_info new_year_2024 (''11010519491231002X''[17 := CHR '' '']) Map.empty =
       Inr \<lparr>address = unknown_province, birth_text = ''1949-12-31'', age = 74, gender = female,
            check_code = ''X'', valid = True, error_msg = [], zodiac_sign = capricorn,
            chinese_zodiac = zodiacs ! 1, birth_season = winter\<rparr>"
  by code_simp

text \<open>
  Claim C7, amended. For every valid 18-character number (17 digits followed by the
  check character computed from them), stripping and upper-casing leave the number as
  it is, the check character recomputed from the normalised text is its 18th
  character, and the parser goes on to lines 183 to 207 with the number itself, so its
  result carries no message of a check mismatch. And replacing the 18th character by
  an ASCII character that is not white space and whose upper-case form is not the check
  character (such a character differs from the check character) makes the parser
  return the initial result with the message of the check mismatch, which contains the
  expected check character.
\<close>

theorem valid_number_round_trip:
  assumes "length s = 18" "isdigit (take 17 s)"
    "compute_check_code (take 17 s) = Inr (s ! 17)"
  shows "upper (strip s) = s
     \<and> compute_check_code (take 17 (upper (strip s))) = Inr (upper (strip s) ! 17)
     \<and> parse_id_info cur s rc = fill_info cur s rc initial_info
     \<and> (\<exists>info. parse_id_info cur s rc = Inr info \<and> (\<forall>c. error_msg info \<noteq> err_mismatch c))
     \<and> (\<forall>c. (of_char c :: nat) < 128 \<and> \<not> is_space c \<and> upper_char c \<noteq> s ! 17 \<longrightarrow>
           c \<noteq> s ! 17 \<and>
           parse_id_info cur (s[17 := c]) rc =
             Inr (initial_info\<lparr>error_msg := err_mismatch (s ! 17)\<rparr>) \<and>
           s ! 17 \<in> set (err_mismatch (s ! 17)))"
proof -
  let ?m = "take 17 s"
  have m: "length ?m = 17" "list_all is_digit_char ?m"
    using assms(1,2) by (simp_all add: isdigit_def)
  have d: "17 \<le> length ?m" "list_all is_digit_char (take 17 ?m)" using m by simp_all
  from compute_check_code_ok [OF d] assms(3)
  have k: "s ! 17 \<in> set check_codes" by auto
  have "take (Suc 17) s = ?m @ [s ! 17]"
    using assms(1) by (intro take_Suc_conv_app_nth) simp
  then have s: "s = ?m @ [s ! 17]" using assms(1) by simp
  have "upper (strip (?m @ [s ! 17])) = ?m @ [upper_char (s ! 17)]"
    using m check_code_not_space [OF k] by (rule strip_upper_number)
  then have n: "upper (strip s) = s" using s check_code_upper [OF k] by simp
  from parse_18 [OF n assms, of cur rc]
  have p: "parse_id_info cur s rc = fill_info cur s rc initial_info" by simp
  from fill_info_total [OF assms(1,2), of cur rc] obtain info
    where info: "fill_info cur s rc initial_info = Inr info" by blast
  from fill_info_error [OF assms(1,2) info]
  have "\<forall>c. error_msg info \<noteq> err_mismatch c" by (auto simp: err_mismatch_distinct')
  with p info have q: "\<exists>info. parse_id_info cur s rc = Inr info \<and>
      (\<forall>c. error_msg info \<noteq> err_mismatch c)" by simp
  have r: "\<forall>c. (of_char c :: nat) < 128 \<and> \<not> is_space c \<and> upper_char c \<noteq> s ! 17 \<longrightarrow>
           c \<noteq> s ! 17 \<and>
           parse_id_info cur (s[17 := c]) rc =
             Inr (initial_info\<lparr>error_msg := err_mismatch (s ! 17)\<rparr>) \<and>
           s ! 17 \<in> set (err_mismatch (s ! 17))"
  proof (intro allI impI)
    fix c
    assume c: "(of_char c :: nat) < 128 \<and> \<not> is_space c \<and> upper_char c \<noteq> s ! 17"
    let ?t = "?m @ [upper_char c]"
    have u: "upper (strip (s[17 := c])) = ?t"
      using m c by (simp add: replace_last [OF assms(1)] strip_upper_number)
    note t = append_check [OF m(1), of "upper_char c"]
    have "parse_id_info cur (s[17 := c]) rc =
         (if ?t ! 17 = s ! 17 then fill_info cur ?t rc initial_info
          else Inr (initial_info\<lparr>error_msg := err_mismatch (s ! 17)\<rparr>))"
      using t assms(2,3) by (intro parse_18 [OF u]) simp_all
    then have "parse_id_info cur (s[17 := c]) rc =
             Inr (initial_info\<lparr>error_msg := err_mismatch (s ! 17)\<rparr>)"
      using t c by simp
    moreover have "c \<noteq> s ! 17" using c check_code_upper [OF k] by auto
    moreover have "s ! 17 \<in> set (err_mismatch (s ! 17))" by (simp add: err_mismatch_def)
    ultimately show "c \<noteq> s ! 17 \<and>
           parse_id_info cur (s[17 := c]) rc =
             Inr (initial_info\<lparr>error_msg := err_mismatch (s ! 17)\<rparr>) \<and>
           s ! 17 \<in> set (err_mismatch (s ! 17))" by simp
  qed
  from n assms(3) have "compute_check_code (take 17 (upper (strip s))) = Inr (upper (strip s) ! 17)"
    by simp
  with n p q r show ?thesis by blast
qed

theorem valid_number_round_trip_witness:
  "length ''11010519491231002X'' = 18 \<and> isdigit (take 17 ''11010519491231002X'')
   \<and> compute_check_code (take 17 ''11010519491231002X'') = Inr (''11010519491231002X'' ! 17)
   \<and> (of_char (CHR ''1'') :: nat) < 128 \<and> \<not> is_space (CHR ''1'')
   \<and> upper_char (CHR ''1'') \<noteq> ''11010519491231002X'' ! 17
   \<and> parse_id_info new_year_2024 (''11010519491231002X''[17 := CHR ''1'']) Map.empty =
        Inr (initial_info\<lparr>error_msg := err_mismatch (''11010519491231002X'' ! 17)\<rparr>)
   \<and> upper (strip ''11010519491231002X'') = ''11010519491231002X''"
proof -
  have h: "length ''11010519491231002X'' = 18" "isdigit (take 17 ''11010519491231002X'')"
    "compute_check_code (take 17 ''11010519491231002X'') = Inr (''11010519491231002X'' ! 17)"
    by code_simp+
  have c: "(of_char (CHR ''1'') :: nat) < 128" "\<not> is_space (CHR ''1'')"
    "upper_char (CHR ''1'') \<noteq> ''11010519491231002X'' ! 17"
    by (simp_all add: is_space_def upper_char_def)
  note w = valid_number_round_trip [OF h, of new_year_2024 Map.empty]
  from w have n: "upper (strip ''11010519491231002X'') = ''11010519491231002X''"
    by (rule conjunct1)
  from w have "\<forall>c. (of_char c :: nat) < 128 \<and> \<not> is_space c \<and>
        upper_char c \<noteq> ''11010519491231002X'' ! 17 \<longrightarrow>
           c \<noteq> ''11010519491231002X'' ! 17 \<and>
           parse_id_info new_year_2024 (''11010519491231002X''[17 := c]) Map.empty =
             Inr (initial_info\<lparr>error_msg := err_mismatch (''11010519491231002X'' ! 17)\<rparr>) \<and>
           ''11010519491231002X'' ! 17 \<in> set (err_mismatch (''11010519491231002X'' ! 17))"
    by blast
  from this [rule_format, of "CHR ''1''"] c
  have p: "parse_id_info new_year_2024 (''11010519491231002X''[17 := CHR ''1'']) Map.empty =
        Inr (initial_info\<lparr>error_msg := err_mismatch (''11010519491231002X'' ! 17)\<rparr>)"
    by blast
  show ?thesis by (intro conjI; fact)
qed

section \<open>The age\<close>

lemma parse_valid_age:
  assumes "parse_id_info cur s rc = Inr info" "valid info"
  shows "\<exists>b. valid_date b \<and> birth_text info = strftime b \<and> age info = age_on cur b"
proof (cases rule: parse_cases [of s cur rc])
  case e17
  then show ?thesis using assms by (auto simp: initial_info_def)
next
  case elen
  then show ?thesis using assms by (auto simp: initial_info_def)
next
  case e15
  then show ?thesis using assms by (auto simp: initial_info_def)
next
  case e18
  then show ?thesis using assms by (auto simp: initial_info_def)
next
  case (mismatch c)
  then show ?thesis using assms by (auto simp: initial_info_def)
next
  case (verified n)
  from verified(1,2) show ?thesis
  proof (cases rule: fill_info_cases [of n cur rc initial_info])
    case bad_date
    then show ?thesis using assms verified(5) by (auto simp: initial_info_def)
  next
    case (good_date b)
    then have "valid_date b \<and> birth_text info = strftime b \<and> age info = age_on cur b"
      using assms verified(5) by (auto simp: initial_info_def)
    then show ?thesis by blast
  qed
qed

lemma age_on_formula:
  "age_on cur b = int (year cur) - int (year b) -
     (if month cur < month b \<or> (month cur = month b \<and> day cur < day b) then 1 else 0)"
  by (auto simp: age_on_def)


text \<open>
  Claim C5. For every birth date and reference date, the age of lines 191 to 193 is the
  year of the reference date minus the year of the birth date, minus 1 exactly when
  the pair (month, day) of the reference date is lexicographically less than the pair
  of the birth date, that is when its month is less, or its month is the same and its
  day is less. The age field of every valid result of the parser is this number, for
  the birth date the result shows. With the reference date 2024-06-15, the birth date
  2000-06-16 gives 23 and the birth date 2000-06-15 gives 24.
\<close>

theorem age_is_year_difference_less_birthday_flag:
  "age_on cur b = int (year cur) - int (year b) -
     (if month cur < month b \<or> (month cur = month b \<and> day cur < day b) then 1 else 0)
   \<and> (parse_id_info cur s rc = Inr info \<and> valid info \<longrightarrow>
        (\<exists>d. valid_date d \<and> birth_text info = strftime d \<and>
           age info = int (year cur) - int (year d) -
             (if month cur < month d \<or> (month cur = month d \<and> day cur < day d) then 1 else 0)))
   \<and> age_on mid_june_2024 \<lparr>year = 2000, month = 6, day = 16\<rparr> = 23
   \<and> age_on mid_june_2024 \<lparr>year = 2000, month = 6, day = 15\<rparr> = 24"
proof -
  have "parse_id_info cur s rc = Inr info \<and> valid info \<longrightarrow>
        (\<exists>d. valid_date d \<and> birth_text info = strftime d \<and>
           age info = int (year cur) - int (year d) -
             (if month cur < month d \<or> (month cur = month d \<and> day cur < day d) then 1 else 0))"
  proof
    assume a: "parse_id_info cur s rc = Inr info \<and> valid info"
    then obtain d where "valid_date d" "birth_text info = strftime d" "age info = age_on cur d"
      using parse_valid_age [of cur s rc info] by blast
    then show "\<exists>d. valid_date d \<and> birth_text info = strftime d \<and>
           age info = int (year cur) - int (year d) -
             (if month cur < month d \<or> (month cur = month d \<and> day cur < day d) then 1 else 0)"
      using age_on_formula [of cur d] by (intro exI [of _ d]) simp
  qed
  moreover have "age_on mid_june_2024 \<lparr>year = 2000, month = 6, day = 16\<rparr> = 23"
    "age_on mid_june_2024 \<lparr>year = 2000, month = 6, day = 15\<rparr> = 24"
    by (simp_all add: age_on_def mid_june_2024_def)
  ultimately show ?thesis using age_on_formula [of cur b] by blast
qed

theorem age_is_year_difference_less_birthday_flag_witness:
  "parse_id_info mid_june_2024 ''110105200006160013'' Map.empty =
     Inr \<lparr>address = unknown_province, birth_text = ''2000-06-16'', age = 23, gender = male,
          check_code = ''3'', valid = True, error_msg = [], zodiac_sign = gemini,
          chinese_zodiac = zodiacs ! 4, birth_season = summer\<rparr>
   \<and> parse_id_info mid_june_2024 ''110105200006150018'' Map.empty =
     Inr \<lparr>address = unknown_province, birth_text = ''2000-06-15'', age = 24, gender = male,
          check_code = ''8'', valid = True, error_msg = [], zodiac_sign = gemini,
          chinese_zodiac = zodiacs ! 4, birth_season = summer\<rparr>
   \<and> (\<exists>d. valid_date d \<and> ''2000-06-16'' = strftime d \<and>
         (23 :: int) = int (year mid_june_2024) - int (year d) -
           (if month mid_june_2024 < month d \<or>
               (month mid_june_2024 = month d \<and> day mid_june_2024 < day d) then 1 else 0))"
proof -
  let ?r = "\<lparr>address = unknown_province, birth_text = ''2000-06-16'', age = 23, gender = male,
          check_code = ''3'', valid = True, error_msg = [], zodiac_sign = gemini,
          chinese_zodiac = zodiacs ! 4, birth_season = summer\<rparr>"
  have e1: "parse_id_info mid_june_2024 ''110105200006160013'' Map.empty = Inr ?r"
    by code_simp
  have e2: "parse_id_info mid_june_2024 ''110105200006150018'' Map.empty =
     Inr \<lparr>address = unknown_province, birth_text = ''2000-06-15'', age = 24, gender = male,
          check_code = ''8'', valid = True, error_msg = [], zodiac_sign = gemini,
          chinese_zodiac = zodiacs ! 4, birth_season = summer\<rparr>"
    by code_simp
  have "parse_id_info mid_june_2024 ''110105200006160013'' Map.empty = Inr ?r \<and> valid ?r \<longrightarrow>
        (\<exists>d. valid_date d \<and> birth_text ?r = strftime d \<and>
           age ?r = int (year mid_june_2024) - int (year d) -
             (if month mid_june_2024 < month d \<or>
                 (month mid_june_2024 = month d \<and> day mid_june_2024 < day d) then 1 else 0))"
    using age_is_year_difference_less_birthday_flag
      [of mid_june_2024 mid_june_2024 "''110105200006160013''" Map.empty ?r]
    by blast
  with e1 have e3: "\<exists>d. valid_date d \<and> ''2000-06-16'' = strftime d \<and>
         (23 :: int) = int (year mid_june_2024) - int (year d) -
           (if month mid_june_2024 < month d \<or>
               (month mid_june_2024 = month d \<and> day mid_june_2024 < day d) then 1 else 0)"
    by simp
  show ?thesis by (intro conjI; fact)
qed




section \<open>The sign\<close>

text \<open>
  The number that line 91 reads back from the text of the month followed by the day on
  two digits is the month times 100 plus the day, for every day below 100.
\<close>

lemma int_str_snoc: "int_str (xs @ [c]) = 10 * int_str xs + (of_char c - 48)"
  by (simp add: int_str_def)

lemma int_str_append: "int_str (xs @ ys) = int_str xs * 10 ^ length ys + int_str ys"
proof (induction ys rule: rev_induct)
  case Nil
  then show ?case by (simp add: int_str_def)
next
  case (snoc y ys)
  have "int_str (xs @ ys @ [y]) = 10 * int_str (xs @ ys) + (of_char y - 48)"
    using int_str_snoc [of "xs @ ys" y] by simp
  then show ?case using snoc by (simp add: int_str_snoc algebra_simps)
qed

lemma int_str_digit: "n < 10 \<Longrightarrow> int_str [digit_char n] = n"
  by (simp add: int_str_def digit_char_def)

lemma int_str_str_nat: "int_str (str_nat n) = n"
proof (induction n rule: str_nat.induct)
  case (1 n)
  show ?case
  proof (cases "n < 10")
    case True
    then show ?thesis by (simp add: str_nat.simps [of n] int_str_digit)
  next
    case False
    have "n mod 10 < 10" by simp
    then have "int_str [digit_char (n mod 10)] = n mod 10" by (rule int_str_digit)
    then show ?thesis using False 1
      by (simp add: str_nat.simps [of n] int_str_append)
  qed
qed

lemma int_str_zeros: "int_str (replicate k (CHR ''0'') @ s) = int_str s"
  by (induction k) (simp_all add: int_str_def)

lemma int_str_zero_pad: "int_str (zero_pad w n) = n"
  by (simp add: zero_pad_def Let_def int_str_zeros int_str_str_nat)

lemma length_str_nat_2:
  assumes "n < 100"
  shows "length (str_nat n) = (if n < 10 then 1 else 2)"
proof (cases "n < 10")
  case True
  then show ?thesis by (simp add: str_nat.simps [of n])
next
  case False
  have "n div 10 < 10" using assms by simp
  then have "length (str_nat (n div 10)) = 1" by (simp add: str_nat.simps [of "n div 10"])
  then show ?thesis using False by (simp add: str_nat.simps [of n])
qed

lemma length_zero_pad_2: "n < 100 \<Longrightarrow> length (zero_pad 2 n) = 2"
  by (simp add: zero_pad_def Let_def length_str_nat_2)

lemma birth_num: 
  "d < 100 \<Longrightarrow> int_str (str_nat m @ zero_pad 2 d) = m * 100 + d"
  by (simp add: int_str_append int_str_str_nat int_str_zero_pad length_zero_pad_2)

lemma zodiac_loop_spec:
  "zodiac_loop zodiac_signs n 0 zodiac_signs = spec_zodiac_sign n"
  by (simp add: zodiac_signs_def spec_zodiac_sign_def upt_rec)

lemma valid_date_day: "valid_date d \<Longrightarrow> day d < 100"
  by (auto simp: valid_date_def days_in_month_def split: if_splits)

lemma zodiac_sign_of_birth_num:
  "day d < 100 \<Longrightarrow> get_zodiac_sign d = spec_zodiac_sign (month d * 100 + day d)"
  by (simp add: get_zodiac_sign_def Let_def birth_num zodiac_loop_spec)

lemma spec_zodiac_sign_boundaries:
  "spec_zodiac_sign 119 = capricorn" "spec_zodiac_sign 120 = aquarius"
  "spec_zodiac_sign 1222 = capricorn"
  by (simp_all add: spec_zodiac_sign_def zodiac_signs_def upt_rec)

text \<open>
  Claim C4. For every valid calendar date, the sign computed by \<^verbatim>\<open>get_zodiac_sign\<close> is
  the one the specification describes: with \<open>birth_num\<close> the month times 100 plus the
  day, the sign of the entry before the first entry whose cutoff exceeds \<open>birth_num\<close>,
  and the sign of the last entry when that first entry is the first of the table or
  when no cutoff exceeds \<open>birth_num\<close>. So 01-19 gives Capricorn (the last entry),
  01-20 gives Aquarius and 12-22 gives Capricorn.
\<close>

theorem zodiac_sign_is_previous_entry_of_first_larger_cutoff:
  "(valid_date d \<longrightarrow> get_zodiac_sign d = spec_zodiac_sign (month d * 100 + day d))
   \<and> (month d = 1 \<and> day d = 19 \<longrightarrow> get_zodiac_sign d = capricorn)
   \<and> (month d = 1 \<and> day d = 20 \<longrightarrow> get_zodiac_sign d = aquarius)
   \<and> (month d = 12 \<and> day d = 22 \<longrightarrow> get_zodiac_sign d = capricorn)"
proof (intro conjI impI)
  assume "valid_date d"
  then have "day d < 100" by (rule valid_date_day)
  then show "get_zodiac_sign d = spec_zodiac_sign (month d * 100 + day d)"
    by (rule zodiac_sign_of_birth_num)
next
  assume "month d = 1 \<and> day d = 19"
  then show "get_zodiac_sign d = capricorn"
    using zodiac_sign_of_birth_num [of d] by (simp add: spec_zodiac_sign_boundaries)
next
  assume "month d = 1 \<and> day d = 20"
  then show "get_zodiac_sign d = aquarius"
    using zodiac_sign_of_birth_num [of d] by (simp add: spec_zodiac_sign_boundaries)
next
  assume "month d = 12 \<and> day d = 22"
  then show "get_zodiac_sign d = capricorn"
    using zodiac_sign_of_birth_num [of d] by (simp add: spec_zodiac_sign_boundaries)
qed

theorem zodiac_sign_is_previous_entry_of_first_larger_cutoff_witness:
  "valid_date \<lparr>year = 1990, month = 3, day = 7\<rparr>
   \<and> get_zodiac_sign \<lparr>year = 1990, month = 3, day = 7\<rparr> = pisces
   \<and> spec_zodiac_sign 307 = pisces
   \<and> get_zodiac_sign \<lparr>year = 2000, month = 1, day = 19\<rparr> = capricorn
   \<and> get_zodiac_sign \<lparr>year = 2000, month = 1, day = 20\<rparr> = aquarius
   \<and> get_zodiac_sign \<lparr>year = 2000, month = 12, day = 22\<rparr> = capricorn"
proof -
  have v: "valid_date \<lparr>year = 1990, month = 3, day = 7\<rparr>"
    by (simp add: valid_date_def days_in_month_def)
  have s: "spec_zodiac_sign 307 = pisces"
    by (simp add: spec_zodiac_sign_def zodiac_signs_def upt_rec)
  have a: "get_zodiac_sign \<lparr>year = 1990, month = 3, day = 7\<rparr> = pisces"
    using zodiac_sign_is_previous_entry_of_first_larger_cutoff
      [of "\<lparr>year = 1990, month = 3, day = 7\<rparr>"] v s by simp
  have b: "get_zodiac_sign \<lparr>year = 2000, month = 1, day = 19\<rparr> = capricorn"
    using zodiac_sign_is_previous_entry_of_first_larger_cutoff
      [of "\<lparr>year = 2000, month = 1, day = 19\<rparr>"] by simp
  have c: "get_zodiac_sign \<lparr>year = 2000, month = 1, day = 20\<rparr> = aquarius"
    using zodiac_sign_is_previous_entry_of_first_larger_cutoff
      [of "\<lparr>year = 2000, month = 1, day = 20\<rparr>"] by simp
  have e: "get_zodiac_sign \<lparr>year = 2000, month = 12, day = 22\<rparr> = capricorn"
    using zodiac_sign_is_previous_entry_of_first_larger_cutoff
      [of "\<lparr>year = 2000, month = 12, day = 22\<rparr>"] by simp
  show ?thesis by (intro conjI; fact)
qed

end
